theory Spec2Isabelle
  imports Complex_Main
begin

section \<open>The tensor library used by \<^verbatim>\<open>prim_ops.py\<close>\<close>

text \<open>
  \<^verbatim>\<open>prim_ops.py\<close> builds its operations from the layers of an external tensor library
  (\<^verbatim>\<open>torch.nn\<close>). A layer is modelled by its constructor arguments, written out in full:
  where the source leaves an argument to the library's default, the default is filled in
  (\<^verbatim>\<open>stride=1, padding=0, dilation=1, groups=1\<close> for the convolutions,
  \<^verbatim>\<open>output_padding=0\<close> for the transposed convolution, \<^verbatim>\<open>padding=0\<close> for the pools).

  The library's own validation of constructor arguments is not part of the model: a layer
  is constructed from any arguments, and a call checks, on the shape of its input, what
  the library requires of the layer and of the input together.

  A tensor is modelled by its shape and by a symbolic term that records which layers were
  applied to which value, in which order. The numbers inside a tensor are floating point
  and are not modelled.
\<close>

datatype layer =
    GroupNorm int int
      \<comment> \<open>\<^verbatim>\<open>nn.GroupNorm(num_groups, num_channels)\<close>\<close>
  | ReLU
  | Sigmoid
  | Dropout3d real
      \<comment> \<open>\<^verbatim>\<open>nn.Dropout3d(p)\<close>\<close>
  | Conv3d int int int int int int int
      \<comment> \<open>\<^verbatim>\<open>nn.Conv3d(in_channels, out_channels, kernel_size, stride, padding, dilation, groups)\<close>\<close>
  | ConvTranspose3d int int int int int int int
      \<comment> \<open>\<^verbatim>\<open>nn.ConvTranspose3d(in_channels, out_channels, kernel_size, stride, padding, dilation, groups)\<close>\<close>
  | AvgPool3d int int
      \<comment> \<open>\<^verbatim>\<open>nn.AvgPool3d(kernel_size, stride)\<close>\<close>
  | MaxPool3d int int
      \<comment> \<open>\<^verbatim>\<open>nn.MaxPool3d(kernel_size, stride)\<close>\<close>
  | AdaptiveAvgPool3d int
      \<comment> \<open>\<^verbatim>\<open>nn.AdaptiveAvgPool3d(output_size)\<close>\<close>
  | Linear int int
      \<comment> \<open>\<^verbatim>\<open>nn.Linear(in_features, out_features)\<close>\<close>
  | Sequential "layer list"

datatype texpr =
    Leaf nat
      \<comment> \<open>an input value, not further described\<close>
  | App layer texpr
      \<comment> \<open>the layer applied to the value\<close>
  | View "int list" texpr
      \<comment> \<open>\<^verbatim>\<open>t.view(...)\<close>\<close>
  | Mul texpr texpr
      \<comment> \<open>\<^verbatim>\<open>a * b\<close>, with broadcasting\<close>

record tensor =
  shape :: "int list"
    \<comment> \<open>\<^verbatim>\<open>t.size()\<close>\<close>
  data :: texpr

datatype error =
    Warning string
  | NotImplementedError
  | AttributeError
  | ValueError
  | KeyError
  | RuntimeError
      \<comment> \<open>raised by the library when a layer rejects the shape of its input\<close>

definition bind :: "error + 'a \<Rightarrow> ('a \<Rightarrow> error + 'b) \<Rightarrow> error + 'b" where
  "bind m f = (case m of Inl e \<Rightarrow> Inl e | Inr v \<Rightarrow> f v)"

subsection \<open>Output extents, as the library documents them\<close>

definition conv_out :: "int \<Rightarrow> int \<Rightarrow> int \<Rightarrow> int \<Rightarrow> int \<Rightarrow> int" where
  "conv_out n k s p d = (n + 2 * p - d * (k - 1) - 1) div s + 1"

definition conv_transpose_out :: "int \<Rightarrow> int \<Rightarrow> int \<Rightarrow> int \<Rightarrow> int \<Rightarrow> int" where
  "conv_transpose_out n k s p d = (n - 1) * s - 2 * p + d * (k - 1) + 1"

definition pool_out :: "int \<Rightarrow> int \<Rightarrow> int \<Rightarrow> int" where
  "pool_out n k s = (n - k) div s + 1"

definition conv_ok :: "int \<Rightarrow> int \<Rightarrow> int \<Rightarrow> int \<Rightarrow> int \<Rightarrow> int \<Rightarrow> int \<Rightarrow> int \<Rightarrow> bool" where
  "conv_ok c i out k s p d g \<longleftrightarrow>
     c = i \<and> 0 < i \<and> 0 < out \<and> 0 < g \<and> i mod g = 0 \<and> out mod g = 0
     \<and> 0 < k \<and> 0 < s \<and> 0 \<le> p \<and> 0 < d"

text \<open>
  The shape a layer returns for an input of shape \<open>sh\<close>, or the error it raises. The
  convolutions and pools take a 5-D input \<open>[batch, channel, depth, height, width]\<close> or
  an unbatched 4-D input \<open>[channel, depth, height, width]\<close>. The library raises when a
  convolution has no channels, when the (padded) input is smaller than the kernel, and
  when a transposed convolution gets an empty spatial dimension. An adaptive average pool
  to size 1 is the mean over the last three dimensions and accepts every input that has
  them, empty or not; to another size it raises when a dimension other than the batch is
  empty. Recent versions of the library
  refuse a group normalization over a single value (\<^verbatim>\<open>Expected more than 1 value per
  channel\<close>, a \<^verbatim>\<open>ValueError\<close>); the check is part of the model, so that a call proved
  to succeed succeeds with and without it.
\<close>

fun layer_shape :: "layer \<Rightarrow> int list \<Rightarrow> error + int list" where
  "layer_shape (GroupNorm g c) sh =
     (case sh of
        n # ch # rest \<Rightarrow>
          if \<not> (0 < g \<and> c mod g = 0 \<and> ch = c) then Inl RuntimeError
          else if (n * ch div g) * prod_list rest = 1 then Inl ValueError
          else Inr sh
      | _ \<Rightarrow> Inl RuntimeError)"
| "layer_shape ReLU sh = Inr sh"
| "layer_shape Sigmoid sh = Inr sh"
| "layer_shape (Dropout3d p) sh = Inr sh"
| "layer_shape (Conv3d i out k s p d g) sh =
     (case sh of
        [n, c, dd, h, w] \<Rightarrow>
          if conv_ok c i out k s p d g
             \<and> (\<forall>e \<in> set [dd, h, w]. d * (k - 1) + 1 \<le> e + 2 * p)
          then Inr [n, out, conv_out dd k s p d, conv_out h k s p d, conv_out w k s p d]
          else Inl RuntimeError
      | [c, dd, h, w] \<Rightarrow>
          if conv_ok c i out k s p d g
             \<and> (\<forall>e \<in> set [dd, h, w]. d * (k - 1) + 1 \<le> e + 2 * p)
          then Inr [out, conv_out dd k s p d, conv_out h k s p d, conv_out w k s p d]
          else Inl RuntimeError
      | _ \<Rightarrow> Inl RuntimeError)"
| "layer_shape (ConvTranspose3d i out k s p d g) sh =
     (case sh of
        [n, c, dd, h, w] \<Rightarrow>
          if conv_ok c i out k s p d g
             \<and> (\<forall>e \<in> set [dd, h, w]. 0 < e \<and> 0 < conv_transpose_out e k s p d)
          then Inr [n, out, conv_transpose_out dd k s p d, conv_transpose_out h k s p d,
                    conv_transpose_out w k s p d]
          else Inl RuntimeError
      | [c, dd, h, w] \<Rightarrow>
          if conv_ok c i out k s p d g
             \<and> (\<forall>e \<in> set [dd, h, w]. 0 < e \<and> 0 < conv_transpose_out e k s p d)
          then Inr [out, conv_transpose_out dd k s p d, conv_transpose_out h k s p d,
                    conv_transpose_out w k s p d]
          else Inl RuntimeError
      | _ \<Rightarrow> Inl RuntimeError)"
| "layer_shape (AvgPool3d k s) sh =
     (case sh of
        [n, c, dd, h, w] \<Rightarrow>
          if 0 < k \<and> 0 < s \<and> (\<forall>e \<in> set [dd, h, w]. k \<le> e)
          then Inr [n, c, pool_out dd k s, pool_out h k s, pool_out w k s]
          else Inl RuntimeError
      | [c, dd, h, w] \<Rightarrow>
          if 0 < k \<and> 0 < s \<and> (\<forall>e \<in> set [dd, h, w]. k \<le> e)
          then Inr [c, pool_out dd k s, pool_out h k s, pool_out w k s]
          else Inl RuntimeError
      | _ \<Rightarrow> Inl RuntimeError)"
| "layer_shape (MaxPool3d k s) sh =
     (case sh of
        [n, c, dd, h, w] \<Rightarrow>
          if 0 < k \<and> 0 < s \<and> (\<forall>e \<in> set [dd, h, w]. k \<le> e)
          then Inr [n, c, pool_out dd k s, pool_out h k s, pool_out w k s]
          else Inl RuntimeError
      | [c, dd, h, w] \<Rightarrow>
          if 0 < k \<and> 0 < s \<and> (\<forall>e \<in> set [dd, h, w]. k \<le> e)
          then Inr [c, pool_out dd k s, pool_out h k s, pool_out w k s]
          else Inl RuntimeError
      | _ \<Rightarrow> Inl RuntimeError)"
| "layer_shape (AdaptiveAvgPool3d out) sh =
     (if out = 1 then
        (if 3 \<le> length sh then Inr (take (length sh - 3) sh @ [1, 1, 1])
         else Inl RuntimeError)
      else
        (case sh of
           [n, c, dd, h, w] \<Rightarrow>
             if 0 < out \<and> (\<forall>e \<in> set [c, dd, h, w]. 0 < e) then Inr [n, c, out, out, out]
             else Inl RuntimeError
         | [c, dd, h, w] \<Rightarrow>
             if 0 < out \<and> (\<forall>e \<in> set [c, dd, h, w]. 0 < e) then Inr [c, out, out, out]
             else Inl RuntimeError
         | _ \<Rightarrow> Inl RuntimeError))"
| "layer_shape (Linear i out) sh =
     (if sh \<noteq> [] \<and> last sh = i \<and> 0 \<le> i \<and> 0 \<le> out then Inr (butlast sh @ [out])
      else Inl RuntimeError)"
| "layer_shape (Sequential ls) sh = Inl RuntimeError"
    \<comment> \<open>not used: \<open>call\<close> runs the layers of a sequence one by one\<close>

text \<open>
  Calling a layer on a tensor, \<^verbatim>\<open>layer(x)\<close>. An \<^verbatim>\<open>nn.Sequential\<close> calls its layers one
  after the other.
\<close>

fun call :: "layer \<Rightarrow> tensor \<Rightarrow> error + tensor"
  and call_seq :: "layer list \<Rightarrow> tensor \<Rightarrow> error + tensor" where
  "call (Sequential ls) x = call_seq ls x"
| "call l x =
     (case layer_shape l (shape x) of
        Inl e \<Rightarrow> Inl e
      | Inr sh \<Rightarrow> Inr \<lparr>shape = sh, data = App l (data x)\<rparr>)"
| "call_seq [] x = Inr x"
| "call_seq (l # ls) x = (case call l x of Inl e \<Rightarrow> Inl e | Inr y \<Rightarrow> call_seq ls y)"

text \<open>\<^verbatim>\<open>t.view(sh)\<close>: the same elements under another shape.\<close>

definition view :: "int list \<Rightarrow> tensor \<Rightarrow> error + tensor" where
  "view sh x =
     (if prod_list sh = prod_list (shape x)
      then Inr \<lparr>shape = sh, data = View sh (data x)\<rparr>
      else Inl RuntimeError)"

text \<open>
  Broadcasting: the shapes are aligned at their last dimension; two extents are
  compatible when they are equal or one of them is 1.
\<close>

fun broadcast_rev :: "int list \<Rightarrow> int list \<Rightarrow> int list option" where
  "broadcast_rev [] ys = Some ys"
| "broadcast_rev xs [] = Some xs"
| "broadcast_rev (x # xs) (y # ys) =
     (if x = y \<or> y = 1 then map_option ((#) x) (broadcast_rev xs ys)
      else if x = 1 then map_option ((#) y) (broadcast_rev xs ys)
      else None)"

definition mul :: "tensor \<Rightarrow> tensor \<Rightarrow> error + tensor" where
  "mul a b =
     (case broadcast_rev (rev (shape a)) (rev (shape b)) of
        None \<Rightarrow> Inl RuntimeError
      | Some r \<Rightarrow> Inr \<lparr>shape = rev r, data = Mul (data a) (data b)\<rparr>)"

section \<open>\<^verbatim>\<open>prim_ops.py\<close>\<close>

subsection \<open>\<^verbatim>\<open>str.split\<close>\<close>

fun str_split :: "char \<Rightarrow> string \<Rightarrow> string list" where
  "str_split sep [] = [[]]"
| "str_split sep (c # cs) =
     (if c = sep then [] # str_split sep cs
      else (case str_split sep cs of w # ws \<Rightarrow> (c # w) # ws | [] \<Rightarrow> [[c]]))"
    \<comment> \<open>the result is never empty: the last case does not occur\<close>

subsection \<open>\<^verbatim>\<open>BaseOp\<close>\<close>

record BaseOp =
  ops_list :: "string list"
  norm :: "layer option"
  activation :: "layer option"
  dropout :: "layer option"

text \<open>
  \<^verbatim>\<open>BaseOp.__init__(self, in_channels, out_channels, dropout_rate=0,
  ops_order='weight_norm_act')\<close>
\<close>

definition BaseOp_init :: "int \<Rightarrow> int \<Rightarrow> real \<Rightarrow> string \<Rightarrow> BaseOp" where
  "BaseOp_init in_channels out_channels dropout_rate ops_order =
     (let ops = str_split CHR ''_'' ops_order in
      \<lparr>ops_list = ops,
       norm = (if ''norm'' \<in> set ops
               then (let group = (if out_channels mod 16 \<noteq> 0 then 1 else out_channels div 16)
                     in Some (GroupNorm group out_channels))
               else None),
       activation = (if ''act'' \<in> set ops then Some ReLU else None),
       dropout = (if dropout_rate > 0 then Some (Dropout3d dropout_rate) else None)\<rparr>)"

text \<open>\<^verbatim>\<open>if layer is not None: x = layer(x)\<close>\<close>

definition opt_call :: "layer option \<Rightarrow> tensor \<Rightarrow> error + tensor" where
  "opt_call a x = (case a of None \<Rightarrow> Inr x | Some l \<Rightarrow> call l x)"

text \<open>
  \<^verbatim>\<open>BaseOp.forward\<close>. The subtype's \<^verbatim>\<open>weight_call\<close> is the parameter \<open>wc\<close>;
  \<open>forward_loop\<close> is the \<^verbatim>\<open>for op in self.ops_list\<close> loop over the tokens that are left.
\<close>

fun forward_loop ::
  "(tensor \<Rightarrow> error + tensor) \<Rightarrow> 'a BaseOp_scheme \<Rightarrow> string list \<Rightarrow> tensor \<Rightarrow> error + tensor"
where
  "forward_loop wc self [] x = Inr x"
| "forward_loop wc self (op # ops) x =
     (if op = ''weight'' then
        bind (bind (opt_call (dropout self) x) wc) (forward_loop wc self ops)
      else if op = ''norm'' then
        bind (opt_call (norm self) x) (forward_loop wc self ops)
      else if op = ''act'' then
        bind (opt_call (activation self) x) (forward_loop wc self ops)
      else Inl (Warning (''Unrecognized op: '' @ op)))"

definition forward ::
  "(tensor \<Rightarrow> error + tensor) \<Rightarrow> 'a BaseOp_scheme \<Rightarrow> tensor \<Rightarrow> error + tensor" where
  "forward wc self x = forward_loop wc self (ops_list self) x"

subsection \<open>\<^verbatim>\<open>ConvOps\<close>\<close>

record ConvOps = BaseOp +
  use_depthwise :: bool
  depth_conv :: "layer option"
  point_conv :: "layer option"
  conv :: "layer option"

text \<open>
  \<^verbatim>\<open>ConvOps.__init__(self, in_channels, out_channels, kernel_size=3, stride=1, dilation=1,
  use_transpose=False, use_depthwise=False, dropout_rate=0, ops_order='weight_norm_act')\<close>.
  An attribute the constructor does not set is \<open>None\<close>.
\<close>

definition ConvOps_init ::
  "int \<Rightarrow> int \<Rightarrow> int \<Rightarrow> int \<Rightarrow> int \<Rightarrow> bool \<Rightarrow> bool \<Rightarrow> real \<Rightarrow> string \<Rightarrow> ConvOps" where
  "ConvOps_init in_channels out_channels kernel_size stride dilation use_transpose
       use_depthwise' dropout_rate ops_order =
     (let base = BaseOp_init in_channels out_channels dropout_rate ops_order;
          padding = (dilation * (kernel_size - 1) - stride + 1) div 2
      in \<lparr>ops_list = ops_list base, norm = norm base, activation = activation base,
          dropout = dropout base,
          use_depthwise = use_depthwise',
          depth_conv =
            (if use_depthwise' then
               (if use_transpose
                then Some (ConvTranspose3d in_channels in_channels kernel_size stride padding 1
                             in_channels)
                else Some (Conv3d in_channels in_channels kernel_size stride padding 1
                             in_channels))
             else None),
          point_conv =
            (if use_depthwise' then Some (Conv3d in_channels out_channels 1 1 0 1 1) else None),
          conv =
            (if use_depthwise' then None
             else if use_transpose
             then Some (ConvTranspose3d in_channels out_channels kernel_size stride padding
                          dilation 1)
             else Some (Conv3d in_channels out_channels kernel_size stride padding dilation 1))\<rparr>)"

text \<open>Reading an attribute that was never set raises \<^verbatim>\<open>AttributeError\<close>.\<close>

definition attr_call :: "layer option \<Rightarrow> tensor \<Rightarrow> error + tensor" where
  "attr_call a x = (case a of None \<Rightarrow> Inl AttributeError | Some l \<Rightarrow> call l x)"

definition ConvOps_weight_call :: "ConvOps \<Rightarrow> tensor \<Rightarrow> error + tensor" where
  "ConvOps_weight_call self x =
     (if use_depthwise self
      then bind (attr_call (depth_conv self) x) (attr_call (point_conv self))
      else attr_call (ConvOps.conv self) x)"

subsection \<open>\<^verbatim>\<open>SEConvOp\<close>\<close>

record SEConvOp = BaseOp +
  stride :: int
  avg_pool :: layer
  fc :: layer
  conv :: "layer option"

text \<open>
  \<^verbatim>\<open>SEConvOp.__init__(self, in_channels, out_channels, kernel_size=3, stride=1, dilation=1,
  use_transpose=False, dropout_rate=0, ops_order='weight_norm')\<close>
\<close>

definition SEConvOp_init ::
  "int \<Rightarrow> int \<Rightarrow> int \<Rightarrow> int \<Rightarrow> int \<Rightarrow> bool \<Rightarrow> real \<Rightarrow> string \<Rightarrow> SEConvOp" where
  "SEConvOp_init in_channels out_channels kernel_size stride' dilation use_transpose
       dropout_rate ops_order =
     (let base = BaseOp_init in_channels out_channels dropout_rate ops_order;
          padding = (dilation * (kernel_size - 1) - stride' + 1) div 2
      in \<lparr>ops_list = ops_list base,
          norm = (if stride' \<ge> 2 then norm base else None),
          activation = activation base,
          dropout = dropout base,
          stride = stride',
          avg_pool = AdaptiveAvgPool3d 1,
          fc = Sequential [Linear in_channels 1, ReLU, Linear 1 out_channels, Sigmoid],
          conv =
            (if stride' \<ge> 2 then
               (if use_transpose
                then Some (ConvTranspose3d in_channels out_channels kernel_size stride' padding
                             1 1)
                else Some (Conv3d in_channels out_channels kernel_size stride' padding 1 1))
             else None)\<rparr>)"

text \<open>
  \<^verbatim>\<open>batch_size, channels = x.size()[:2]\<close> raises \<^verbatim>\<open>ValueError\<close> when the tensor has
  fewer than two dimensions.
\<close>

definition SEConvOp_weight_call :: "SEConvOp \<Rightarrow> tensor \<Rightarrow> error + tensor" where
  "SEConvOp_weight_call self x =
     (case shape x of
        batch_size # channels # rest \<Rightarrow>
          bind (bind (call (avg_pool self) x) (view [batch_size, channels])) (\<lambda>y.
          bind (bind (call (fc self) y) (view [batch_size, channels, 1, 1, 1])) (\<lambda>y.
          if stride self \<ge> 2 then bind (mul x y) (attr_call (SEConvOp.conv self))
          else mul x y))
      | _ \<Rightarrow> Inl ValueError)"

subsection \<open>\<^verbatim>\<open>PoolingOp\<close>\<close>

record PoolingOp = BaseOp +
  pool :: layer

text \<open>
  \<^verbatim>\<open>PoolingOp.__init__(self, in_channels, out_channels, pool_type, kernel_size=2, stride=2,
  ops_order='weight')\<close>. It calls the base constructor without a dropout rate, whose
  default is 0.
\<close>

definition PoolingOp_init ::
  "int \<Rightarrow> int \<Rightarrow> string \<Rightarrow> int \<Rightarrow> int \<Rightarrow> string \<Rightarrow> error + PoolingOp" where
  "PoolingOp_init in_channels out_channels pool_type kernel_size stride' ops_order =
     (let base = BaseOp_init in_channels out_channels 0 ops_order
      in if pool_type = ''avg''
         then Inr \<lparr>ops_list = ops_list base, norm = norm base, activation = activation base,
                   dropout = dropout base, pool = AvgPool3d kernel_size stride'\<rparr>
         else if pool_type = ''max''
         then Inr \<lparr>ops_list = ops_list base, norm = norm base, activation = activation base,
                   dropout = dropout base, pool = MaxPool3d kernel_size stride'\<rparr>
         else Inl NotImplementedError)"

definition PoolingOp_weight_call :: "PoolingOp \<Rightarrow> tensor \<Rightarrow> error + tensor" where
  "PoolingOp_weight_call self x = call (pool self) x"

subsection \<open>\<^verbatim>\<open>IdentityOp\<close>\<close>

type_synonym IdentityOp = BaseOp

text \<open>
  \<^verbatim>\<open>IdentityOp.__init__(self, in_channels, out_channels, ops_order='weight_norm_act')\<close>
\<close>

definition IdentityOp_init :: "int \<Rightarrow> int \<Rightarrow> string \<Rightarrow> IdentityOp" where
  "IdentityOp_init in_channels out_channels ops_order =
     BaseOp_init in_channels out_channels 0 ops_order"

definition IdentityOp_weight_call :: "IdentityOp \<Rightarrow> tensor \<Rightarrow> error + tensor" where
  "IdentityOp_weight_call self x = Inr x"

subsection \<open>Operations and the registry\<close>

text \<open>
  An operation is an instance of one of the four classes; applying it runs
  \<^verbatim>\<open>BaseOp.forward\<close> with the class's own \<^verbatim>\<open>weight_call\<close>.
\<close>

datatype operation =
    IdentityOp IdentityOp
  | SEConvOp SEConvOp
  | ConvOps ConvOps
  | PoolingOp PoolingOp

fun apply_op :: "operation \<Rightarrow> tensor \<Rightarrow> error + tensor" where
  "apply_op (IdentityOp self) x = forward (IdentityOp_weight_call self) self x"
| "apply_op (SEConvOp self) x = forward (SEConvOp_weight_call self) self x"
| "apply_op (ConvOps self) x = forward (ConvOps_weight_call self) self x"
| "apply_op (PoolingOp self) x = forward (PoolingOp_weight_call self) self x"

text \<open>
  The dictionary \<^verbatim>\<open>OPS\<close>, in the order of the source, each factory with the defaults of
  the constructor it calls written out.
\<close>

definition OPS :: "(string \<times> (int \<Rightarrow> int \<Rightarrow> error + operation)) list" where
  "OPS =
    [(''identity'', \<lambda>c stride. Inr (IdentityOp (IdentityOp_init c c ''weight_norm_act''))),
     (''se_conv'', \<lambda>c stride. Inr (SEConvOp (SEConvOp_init c c 3 1 1 False 0 ''weight_norm''))),
     (''dil_conv'', \<lambda>c stride.
        Inr (ConvOps (ConvOps_init c c 3 1 2 False False 0 ''weight_norm_act''))),
     (''dep_conv'', \<lambda>c stride.
        Inr (ConvOps (ConvOps_init c c 3 1 1 False True 0 ''weight_norm_act''))),
     (''conv'', \<lambda>c stride.
        Inr (ConvOps (ConvOps_init c c 3 1 1 False False 0 ''weight_norm_act''))),
     (''avg_pool'', \<lambda>c stride.
        map_sum id PoolingOp (PoolingOp_init c c ''avg'' 2 2 ''weight'')),
     (''max_pool'', \<lambda>c stride.
        map_sum id PoolingOp (PoolingOp_init c c ''max'' 2 2 ''weight'')),
     (''down_se_conv'', \<lambda>c stride.
        Inr (SEConvOp (SEConvOp_init c c 3 2 1 False 0 ''weight_norm''))),
     (''down_dil_conv'', \<lambda>c stride.
        Inr (ConvOps (ConvOps_init c c 3 2 2 False False 0 ''weight_norm_act''))),
     (''down_dep_conv'', \<lambda>c stride.
        Inr (ConvOps (ConvOps_init c c 3 2 1 False True 0 ''weight_norm_act''))),
     (''down_conv'', \<lambda>c stride.
        Inr (ConvOps (ConvOps_init c c 3 2 1 False False 0 ''weight_norm_act''))),
     (''up_se_conv'', \<lambda>c stride.
        Inr (SEConvOp (SEConvOp_init c c 3 2 1 True 0 ''weight_norm''))),
     (''up_dep_conv'', \<lambda>c stride.
        Inr (ConvOps (ConvOps_init c c 3 2 1 True True 0 ''weight_norm_act''))),
     (''up_conv'', \<lambda>c stride.
        Inr (ConvOps (ConvOps_init c c 3 2 1 True False 0 ''weight_norm_act''))),
     (''up_dil_conv'', \<lambda>c stride.
        Inr (ConvOps (ConvOps_init c c 3 2 2 True False 0 ''weight_norm_act'')))]"

definition DownOps :: "string list" where
  "DownOps = [''avg_pool'', ''max_pool'', ''down_se_conv'', ''down_dil_conv'',
              ''down_dep_conv'', ''down_conv'']"

definition UpOps :: "string list" where
  "UpOps = [''up_se_conv'', ''up_dep_conv'', ''up_conv'', ''up_dil_conv'']"

definition NormOps :: "string list" where
  "NormOps = [''identity'', ''se_conv'', ''dil_conv'', ''dep_conv'', ''conv'']"

text \<open>\<^verbatim>\<open>OPS[name](c, stride)\<close>, then \<^verbatim>\<open>op(x)\<close>; a missing key raises \<^verbatim>\<open>KeyError\<close>.\<close>

definition OPS_apply :: "string \<Rightarrow> int \<Rightarrow> int \<Rightarrow> tensor \<Rightarrow> error + tensor" where
  "OPS_apply name c stride' x =
     (case map_of OPS name of
        None \<Rightarrow> Inl KeyError
      | Some factory \<Rightarrow> bind (factory c stride') (\<lambda>op. apply_op op x))"

section \<open>The group count, in the words of the specification\<close>

text \<open>
  The specification's wording of the group count: \<open>out_channels / 16\<close> when
  \<open>out_channels\<close> is divisible by 16, and 1 otherwise. It is compared below with the
  count \<^verbatim>\<open>BaseOp.__init__\<close> computes.
\<close>

definition spec_group_count :: "int \<Rightarrow> int" where
  "spec_group_count out_channels =
     (if out_channels mod 16 = 0 then out_channels div 16 else 1)"

section \<open>Recognised stage tokens\<close>

text \<open>The tokens that \<^verbatim>\<open>BaseOp.forward\<close> has a branch for.\<close>

definition recognized :: "string \<Rightarrow> bool" where
  "recognized tok \<longleftrightarrow> tok = ''weight'' \<or> tok = ''norm'' \<or> tok = ''act''"

section \<open>Notions used in the statements\<close>

text \<open>
  The spatial extent the specification advertises for a registry entry called with a
  stride: unchanged for the entries that keep the resolution, floor-divided by the stride
  for the entries of \<^verbatim>\<open>DownOps\<close>, multiplied by the stride for the entries of \<^verbatim>\<open>UpOps\<close>.
\<close>

definition spec_extent :: "string \<Rightarrow> int \<Rightarrow> int \<Rightarrow> int" where
  "spec_extent name stride' e =
     (if name \<in> set DownOps then e div stride'
      else if name \<in> set UpOps then e * stride'
      else e)"

text \<open>
  The squeeze-and-excitation gate of an \<^verbatim>\<open>SEConvOp\<close> over \<open>c\<close> channels, as a term: the
  input \<open>v\<close> average-pooled to one value per channel, then linear, ReLU, linear, sigmoid,
  with one hidden unit, viewed as \<open>[b, c, 1, 1, 1]\<close>.
\<close>

definition gate :: "int \<Rightarrow> int \<Rightarrow> texpr \<Rightarrow> texpr" where
  "gate b c v = View [b, c, 1, 1, 1] (App Sigmoid (App (Linear 1 c) (App ReLU
     (App (Linear c 1) (View [b, c] (App (AdaptiveAvgPool3d 1) v))))))"

text \<open>A 5-D shape with batch size \<open>b\<close> and \<open>c\<close> channels.\<close>

definition bc5 :: "int \<Rightarrow> int \<Rightarrow> int list \<Rightarrow> bool" where
  "bc5 b c sh \<longleftrightarrow> (\<exists>d h w. sh = [b, c, d, h, w])"

text \<open>A layer, when there is one, returns a tensor of the shape of its input.\<close>

definition keeps_shape :: "layer option \<Rightarrow> bool" where
  "keeps_shape a \<longleftrightarrow> (\<forall>x y. opt_call a x = Inr y \<longrightarrow> shape y = shape x)"

text \<open>
  The result of a factory is an operation constructed with \<open>out_channels\<close> equal to
  \<open>in_channels\<close>, both \<open>c\<close>.
\<close>

definition built_same :: "int \<Rightarrow> error + operation \<Rightarrow> bool" where
  "built_same c r \<longleftrightarrow>
     (\<exists>ord. r = Inr (IdentityOp (IdentityOp_init c c ord)))
     \<or> (\<exists>k st d t rt ord. r = Inr (SEConvOp (SEConvOp_init c c k st d t rt ord)))
     \<or> (\<exists>k st d t dw rt ord. r = Inr (ConvOps (ConvOps_init c c k st d t dw rt ord)))
     \<or> (\<exists>pt k st ord. r = map_sum id PoolingOp (PoolingOp_init c c pt k st ord))"

section \<open>Basic facts\<close>

lemmas eval_defs = forward_def ConvOps_weight_call_def SEConvOp_weight_call_def
  PoolingOp_weight_call_def IdentityOp_weight_call_def attr_call_def ConvOps_init_def
  SEConvOp_init_def PoolingOp_init_def IdentityOp_init_def BaseOp_init_def Let_def
  conv_ok_def conv_out_def conv_transpose_out_def pool_out_def view_def mul_def
  OPS_apply_def OPS_def

lemma bind_assoc: "bind (bind m f) g = bind m (\<lambda>v. bind (f v) g)"
  by (cases m) (simp_all add: bind_def)

lemma bind_simps [simp]: "bind (Inl e) f = Inl e" "bind (Inr v) f = f v"
  by (simp_all add: bind_def)

lemma opt_call_simps [simp]: "opt_call None x = Inr x" "opt_call (Some l) x = call l x"
  by (simp_all add: opt_call_def)

lemma split_weight_norm_act [simp]:
  "str_split CHR ''_'' ''weight_norm_act'' = [''weight'', ''norm'', ''act'']"
  by simp

lemma split_weight_norm [simp]: "str_split CHR ''_'' ''weight_norm'' = [''weight'', ''norm'']"
  by simp

lemma split_weight [simp]: "str_split CHR ''_'' ''weight'' = [''weight'']"
  by simp

lemma BaseOp_init_sel [simp]:
  "ops_list (BaseOp_init i out r ord) = str_split CHR ''_'' ord"
  "norm (BaseOp_init i out r ord) =
     (if ''norm'' \<in> set (str_split CHR ''_'' ord)
      then Some (GroupNorm (spec_group_count out) out) else None)"
  "activation (BaseOp_init i out r ord) =
     (if ''act'' \<in> set (str_split CHR ''_'' ord) then Some ReLU else None)"
  "dropout (BaseOp_init i out r ord) = (if r > 0 then Some (Dropout3d r) else None)"
  by (simp_all add: BaseOp_init_def Let_def spec_group_count_def)

lemma ConvOps_init_sel [simp]:
  "ops_list (ConvOps_init i out k s d t dw r ord) = str_split CHR ''_'' ord"
  "norm (ConvOps_init i out k s d t dw r ord) = norm (BaseOp_init i out r ord)"
  "activation (ConvOps_init i out k s d t dw r ord) = activation (BaseOp_init i out r ord)"
  "dropout (ConvOps_init i out k s d t dw r ord) = dropout (BaseOp_init i out r ord)"
  "use_depthwise (ConvOps_init i out k s d t dw r ord) = dw"
  by (simp_all add: ConvOps_init_def Let_def)

lemma SEConvOp_init_sel [simp]:
  "ops_list (SEConvOp_init i out k s d t r ord) = str_split CHR ''_'' ord"
  "norm (SEConvOp_init i out k s d t r ord) =
     (if s \<ge> 2 then norm (BaseOp_init i out r ord) else None)"
  "activation (SEConvOp_init i out k s d t r ord) = activation (BaseOp_init i out r ord)"
  "dropout (SEConvOp_init i out k s d t r ord) = dropout (BaseOp_init i out r ord)"
  "stride (SEConvOp_init i out k s d t r ord) = s"
  "avg_pool (SEConvOp_init i out k s d t r ord) = AdaptiveAvgPool3d 1"
  "fc (SEConvOp_init i out k s d t r ord) = Sequential [Linear i 1, ReLU, Linear 1 out, Sigmoid]"
  by (simp_all add: SEConvOp_init_def Let_def)

lemma forward_loop_fun:
  "forward_loop wc self [] = Inr"
  "forward_loop wc self (''weight'' # ops)
     = (\<lambda>x. bind (bind (opt_call (dropout self) x) wc) (forward_loop wc self ops))"
  "forward_loop wc self (''norm'' # ops)
     = (\<lambda>x. bind (opt_call (norm self) x) (forward_loop wc self ops))"
  "forward_loop wc self (''act'' # ops)
     = (\<lambda>x. bind (opt_call (activation self) x) (forward_loop wc self ops))"
  by (simp_all add: fun_eq_iff)

lemma opt_call_fun [simp]: "opt_call None = Inr" "opt_call (Some l) = call l"
  by (simp_all add: fun_eq_iff)

lemma bind_Inr_right: "bind m Inr = m"
  by (cases m) simp_all

lemma forward_weight_norm_act:
  "ops_list self = [''weight'', ''norm'', ''act'']
   \<Longrightarrow> forward wc self x
        = bind (bind (bind (opt_call (dropout self) x) wc) (opt_call (norm self)))
            (opt_call (activation self))"
  by (simp add: forward_def forward_loop_fun bind_Inr_right bind_assoc)

lemma spec_group_count_ok: "0 < c \<Longrightarrow> 0 < spec_group_count c \<and> c mod spec_group_count c = 0"
  unfolding spec_group_count_def by (auto simp: mod_eq_0_iff_dvd pos_imp_zdiv_pos_iff elim: dvdE)

lemma group_guard:
  fixes k d h w :: int
  assumes "2 \<le> d" and "2 \<le> h" and "2 \<le> w"
  shows "k * (d * (h * w)) \<noteq> 1"
proof -
  have "2 * 2 \<le> h * w" using assms(2,3) by (intro mult_mono) simp_all
  then have "2 * 4 \<le> d * (h * w)" using assms(1) by (intro mult_mono) simp_all
  then have "1 < d * (h * w)" by simp
  then show ?thesis by (auto simp: zmult_eq_1_iff)
qed

lemma texpr_App2_neq: "App l (App m t) \<noteq> t"
proof
  assume "App l (App m t) = t"
  then have "size (App l (App m t)) = size t" by simp
  then show False by simp
qed

section \<open>The registry and its name lists\<close>

text \<open>
  C8. The names of the \<^verbatim>\<open>OPS\<close> registry are unique; \<^verbatim>\<open>DownOps\<close>, \<^verbatim>\<open>UpOps\<close> and
  \<^verbatim>\<open>NormOps\<close> have no duplicates, are pairwise disjoint, and each of their elements is a
  key of the registry.
\<close>

theorem registry_names:
  "distinct (map fst OPS) \<and> distinct DownOps \<and> distinct UpOps \<and> distinct NormOps
   \<and> set DownOps \<inter> set UpOps = {} \<and> set DownOps \<inter> set NormOps = {}
   \<and> set UpOps \<inter> set NormOps = {}
   \<and> set DownOps \<subseteq> set (map fst OPS) \<and> set UpOps \<subseteq> set (map fst OPS)
   \<and> set NormOps \<subseteq> set (map fst OPS)"
  by (simp add: OPS_def DownOps_def UpOps_def NormOps_def)

section \<open>The group count of the normalization\<close>

text \<open>
  C5. When the ops-order contains the token \<^verbatim>\<open>norm\<close>, the group normalization that
  \<^verbatim>\<open>BaseOp.__init__\<close> builds, and that every subtype inherits, has \<open>out_channels / 16\<close>
  groups when \<open>out_channels\<close> is divisible by 16 and one group otherwise, over
  \<open>out_channels\<close> channels. The one subtype that does not keep it is an \<^verbatim>\<open>SEConvOp\<close> with
  stride below 2, which has no normalization at all. The witness instantiates the
  theorem at 48 channels (3 groups) and at 20 channels (1 group).
\<close>

theorem group_count:
  assumes "''norm'' \<in> set (str_split CHR ''_'' ops_order)"
  shows "norm (BaseOp_init i out r ops_order) = Some (GroupNorm (spec_group_count out) out)
    \<and> norm (IdentityOp_init i out ops_order) = Some (GroupNorm (spec_group_count out) out)
    \<and> norm (ConvOps_init i out k s d t dw r ops_order)
        = Some (GroupNorm (spec_group_count out) out)
    \<and> map_sum id norm (PoolingOp_init i out pt k s ops_order)
        = (if pt = ''avg'' \<or> pt = ''max'' then Inr (Some (GroupNorm (spec_group_count out) out))
           else Inl NotImplementedError)
    \<and> norm (SEConvOp_init i out k s d t r ops_order)
        = (if s \<ge> 2 then Some (GroupNorm (spec_group_count out) out) else None)"
  using assms by (simp add: IdentityOp_init_def PoolingOp_init_def Let_def)

theorem group_count_witness:
  "''norm'' \<in> set (str_split CHR ''_'' ''weight_norm_act'')
   \<and> norm (ConvOps_init 48 48 3 1 1 False False 0 ''weight_norm_act'') = Some (GroupNorm 3 48)
   \<and> norm (ConvOps_init 20 20 3 1 1 False False 0 ''weight_norm_act'') = Some (GroupNorm 1 20)"
  using group_count [of "''weight_norm_act''" 48 48 0 3 1 1 False False "''avg''"]
        group_count [of "''weight_norm_act''" 20 20 0 3 1 1 False False "''avg''"]
  by (simp add: spec_group_count_def)

section \<open>The pool type of a \<^verbatim>\<open>PoolingOp\<close>\<close>

text \<open>
  C6. Constructing a \<^verbatim>\<open>PoolingOp\<close> with a pool type other than \<^verbatim>\<open>avg\<close> and \<^verbatim>\<open>max\<close>
  raises \<^verbatim>\<open>NotImplementedError\<close>. With \<^verbatim>\<open>avg\<close> or \<^verbatim>\<open>max\<close> the construction succeeds
  and the pool has the kernel size and the stride that were passed; the registry entries
  \<^verbatim>\<open>avg_pool\<close> and \<^verbatim>\<open>max_pool\<close>, which leave both to their defaults, get kernel size 2
  and stride 2.
\<close>

theorem PoolingOp_pool_type:
  "(pool_type \<noteq> ''avg'' \<and> pool_type \<noteq> ''max''
      \<longrightarrow> PoolingOp_init i out pool_type k s ops_order = Inl NotImplementedError)
   \<and> map_sum id pool (PoolingOp_init i out ''avg'' k s ops_order) = Inr (AvgPool3d k s)
   \<and> map_sum id pool (PoolingOp_init i out ''max'' k s ops_order) = Inr (MaxPool3d k s)
   \<and> (\<exists>f self. map_of OPS ''avg_pool'' = Some f \<and> f c st = Inr (PoolingOp self)
         \<and> pool self = AvgPool3d 2 2)
   \<and> (\<exists>f self. map_of OPS ''max_pool'' = Some f \<and> f c st = Inr (PoolingOp self)
         \<and> pool self = MaxPool3d 2 2)"
  by (simp add: PoolingOp_init_def Let_def OPS_def)

theorem PoolingOp_pool_type_witness:
  "''median'' \<noteq> ''avg'' \<and> ''median'' \<noteq> ''max''
   \<and> PoolingOp_init 16 16 ''median'' 2 2 ''weight'' = Inl NotImplementedError
   \<and> map_sum id pool (PoolingOp_init 16 16 ''avg'' 2 2 ''weight'') = Inr (AvgPool3d 2 2)
   \<and> map_sum id pool (PoolingOp_init 16 16 ''max'' 2 2 ''weight'') = Inr (MaxPool3d 2 2)"
  using PoolingOp_pool_type [of "''median''" 16 16 2 2 "''weight''"]
  by simp

section \<open>Unrecognised stage tokens\<close>

lemma forward_loop_append:
  "forward_loop wc self (pre @ post) x
     = bind (forward_loop wc self pre x) (forward_loop wc self post)"
proof (induction pre arbitrary: x)
  case Nil
  show ?case by simp
next
  case (Cons tok pre)
  have step: "bind m (forward_loop wc self (pre @ post))
      = bind (bind m (forward_loop wc self pre)) (forward_loop wc self post)" for m
    by (cases m) (simp_all add: Cons.IH)
  show ?case by (simp add: step)
qed

text \<open>
  C4. \<^verbatim>\<open>apply\<close> of an operation is \<^verbatim>\<open>BaseOp.forward\<close> run with the \<^verbatim>\<open>weight_call\<close> of
  its class (\<open>wc\<close> below, any function). When the ops-list contains a token that is not
  \<^verbatim>\<open>weight\<close>, \<^verbatim>\<open>norm\<close> or \<^verbatim>\<open>act\<close>, \<^verbatim>\<open>forward\<close> runs the stages before the first
  such token and then raises \<^verbatim>\<open>Warning('Unrecognized op: <token>')\<close>; so it never returns
  a tensor, on any input: the error is the warning, or the error of an earlier stage that
  failed on this input. Nothing is checked at construction.
\<close>

theorem unrecognized_token:
  assumes "tok \<in> set (ops_list self)" and "\<not> recognized tok"
  shows "forward wc self x
           = bind (forward_loop wc self (takeWhile recognized (ops_list self)) x)
               (\<lambda>y. Inl (Warning (''Unrecognized op: ''
                        @ hd (dropWhile recognized (ops_list self)))))
         \<and> (\<exists>e. forward wc self x = Inl e)"
proof -
  let ?pre = "takeWhile recognized (ops_list self)"
  let ?rest = "dropWhile recognized (ops_list self)"
  from assms have "?rest \<noteq> []" by auto
  then obtain bad post where rest: "?rest = bad # post" by (cases ?rest) auto
  then have bad: "\<not> recognized bad" by (metis hd_dropWhile list.sel(1) list.distinct(1))
  have "forward wc self x = forward_loop wc self (?pre @ bad # post) x"
    unfolding forward_def using rest by (metis takeWhile_dropWhile_id)
  also have "\<dots> = bind (forward_loop wc self ?pre x) (forward_loop wc self (bad # post))"
    by (rule forward_loop_append)
  also have "forward_loop wc self (bad # post)
      = (\<lambda>y. Inl (Warning (''Unrecognized op: '' @ bad)))"
    using bad by (auto simp: recognized_def fun_eq_iff)
  finally have eq: "forward wc self x
      = bind (forward_loop wc self ?pre x) (\<lambda>y. Inl (Warning (''Unrecognized op: '' @ bad)))" .
  have "\<exists>e. forward wc self x = Inl e"
    unfolding eq by (cases "forward_loop wc self ?pre x") simp_all
  with eq rest show ?thesis by simp
qed

theorem unrecognized_token_witness:
  "''foo'' \<in> set (ops_list (ConvOps_init 32 32 3 1 1 False False 0 ''weight_foo''))
   \<and> \<not> recognized ''foo''
   \<and> apply_op (ConvOps (ConvOps_init 32 32 3 1 1 False False 0 ''weight_foo''))
        \<lparr>shape = [1, 32, 8, 8, 8], data = Leaf 0\<rparr> = Inl (Warning ''Unrecognized op: foo'')"
  using unrecognized_token [of "''foo''" "ConvOps_init 32 32 3 1 1 False False 0 ''weight_foo''"
      "ConvOps_weight_call (ConvOps_init 32 32 3 1 1 False False 0 ''weight_foo'')"
      "\<lparr>shape = [1, 32, 8, 8, 8], data = Leaf 0\<rparr>"]
  by (simp add: recognized_def eval_defs)

section \<open>The order of the stages\<close>

lemma ConvOps_stage_order: "apply_op (ConvOps (ConvOps_init i out k s d t dw r ''weight_norm_act'')) x
     = bind (bind (bind (if r > 0 then call (Dropout3d r) x else Inr x)
         (ConvOps_weight_call (ConvOps_init i out k s d t dw r ''weight_norm_act'')))
         (call (GroupNorm (spec_group_count out) out))) (call ReLU)"
  by (simp add: forward_weight_norm_act)

lemma IdentityOp_stage_order: "apply_op (IdentityOp (IdentityOp_init i out ''weight_norm_act'')) x
     = bind (bind (IdentityOp_weight_call (IdentityOp_init i out ''weight_norm_act'') x)
         (call (GroupNorm (spec_group_count out) out))) (call ReLU)"
  by (simp add: forward_weight_norm_act IdentityOp_init_def)

lemma PoolingOp_stage_order: "bind (map_sum id PoolingOp (PoolingOp_init i out pt k s ''weight_norm_act''))
         (\<lambda>op. apply_op op x)
     = bind (PoolingOp_init i out pt k s ''weight_norm_act'') (\<lambda>self.
         bind (bind (PoolingOp_weight_call self x)
           (call (GroupNorm (spec_group_count out) out))) (call ReLU))"
  by (simp add: forward_weight_norm_act PoolingOp_init_def Let_def)

lemma SEConvOp_stage_order: "apply_op (SEConvOp (SEConvOp_init i out k s d t r ''weight_norm_act'')) x
     = bind (bind (bind (if r > 0 then call (Dropout3d r) x else Inr x)
         (SEConvOp_weight_call (SEConvOp_init i out k s d t r ''weight_norm_act'')))
         (if s \<ge> 2 then call (GroupNorm (spec_group_count out) out) else Inr)) (call ReLU)"
  by (simp add: forward_weight_norm_act bind_Inr_right)


text \<open>
  C2 (as amended). With the ops-order \<^verbatim>\<open>weight_norm_act\<close>, \<^verbatim>\<open>apply\<close> runs, in this order:
  dropout on the input, only when the dropout rate is positive (\<^verbatim>\<open>IdentityOp\<close> and
  \<^verbatim>\<open>PoolingOp\<close> take no dropout rate and never drop out); the \<^verbatim>\<open>weight_call\<close> of the
  class; the group normalization, on the result of \<^verbatim>\<open>weight_call\<close>; the ReLU. This holds
  for \<^verbatim>\<open>ConvOps\<close>, \<^verbatim>\<open>IdentityOp\<close>, \<^verbatim>\<open>PoolingOp\<close> and for an \<^verbatim>\<open>SEConvOp\<close> with stride
  at least 2. An \<^verbatim>\<open>SEConvOp\<close> with stride below 2 has its normalization disabled: it runs
  dropout, \<^verbatim>\<open>weight_call\<close> and the ReLU, and no normalization. Each stage that raises
  ends the run with its error.
\<close>

theorem stage_order:
  "apply_op (ConvOps (ConvOps_init i out k s d t dw r ''weight_norm_act'')) x
     = bind (bind (bind (if r > 0 then call (Dropout3d r) x else Inr x)
         (ConvOps_weight_call (ConvOps_init i out k s d t dw r ''weight_norm_act'')))
         (call (GroupNorm (spec_group_count out) out))) (call ReLU)
   \<and> apply_op (IdentityOp (IdentityOp_init i out ''weight_norm_act'')) x
     = bind (bind (IdentityOp_weight_call (IdentityOp_init i out ''weight_norm_act'') x)
         (call (GroupNorm (spec_group_count out) out))) (call ReLU)
   \<and> bind (map_sum id PoolingOp (PoolingOp_init i out pt k s ''weight_norm_act''))
         (\<lambda>op. apply_op op x)
     = bind (PoolingOp_init i out pt k s ''weight_norm_act'') (\<lambda>self.
         bind (bind (PoolingOp_weight_call self x)
           (call (GroupNorm (spec_group_count out) out))) (call ReLU))
   \<and> apply_op (SEConvOp (SEConvOp_init i out k s d t r ''weight_norm_act'')) x
     = bind (bind (bind (if r > 0 then call (Dropout3d r) x else Inr x)
         (SEConvOp_weight_call (SEConvOp_init i out k s d t r ''weight_norm_act'')))
         (if s \<ge> 2 then call (GroupNorm (spec_group_count out) out) else Inr)) (call ReLU)"
  using ConvOps_stage_order [of i out k s d t dw r x] IdentityOp_stage_order [of i out x]
    PoolingOp_stage_order [of i out pt k s x] SEConvOp_stage_order [of i out k s d t r x]
  by (intro conjI)

theorem stage_order_witness:
  "apply_op (ConvOps (ConvOps_init 32 32 3 1 1 False False (1 / 2) ''weight_norm_act''))
      \<lparr>shape = [1, 32, 8, 8, 8], data = Leaf 0\<rparr>
     = Inr \<lparr>shape = [1, 32, 8, 8, 8],
            data = App ReLU (App (GroupNorm 2 32) (App (Conv3d 32 32 3 1 1 1 1)
                     (App (Dropout3d (1 / 2)) (Leaf 0))))\<rparr>"
  using stage_order [of 32 32 3 1 1 False False "1 / 2"
      "\<lparr>shape = [1, 32, 8, 8, 8], data = Leaf 0\<rparr>" "''avg''"]
  by (simp add: eval_defs spec_group_count_def)

text \<open>
  C2 as stated fails for an \<^verbatim>\<open>SEConvOp\<close> with stride 1 and ops-order
  \<^verbatim>\<open>weight_norm_act\<close>, at 32 channels: its \<^verbatim>\<open>norm\<close> is \<open>None\<close>, and the result is the ReLU
  of the gated input, with no group normalization in between.
\<close>

theorem stage_order_counterexample:
  "norm (SEConvOp_init 32 32 3 1 1 False 0 ''weight_norm_act'') = None
   \<and> apply_op (SEConvOp (SEConvOp_init 32 32 3 1 1 False 0 ''weight_norm_act''))
        \<lparr>shape = [1, 32, 8, 8, 8], data = Leaf 0\<rparr>
     = Inr \<lparr>shape = [1, 32, 8, 8, 8],
            data = App ReLU (Mul (Leaf 0) (View [1, 32, 1, 1, 1] (App Sigmoid
                     (App (Linear 1 32) (App ReLU (App (Linear 32 1) (View [1, 32]
                       (App (AdaptiveAvgPool3d 1) (Leaf 0)))))))))\<rparr>
   \<and> apply_op (SEConvOp (SEConvOp_init 32 32 3 1 1 False 0 ''weight_norm_act''))
        \<lparr>shape = [1, 32, 8, 8, 8], data = Leaf 0\<rparr>
     \<noteq> bind (bind (SEConvOp_weight_call
                (SEConvOp_init 32 32 3 1 1 False 0 ''weight_norm_act'')
                \<lparr>shape = [1, 32, 8, 8, 8], data = Leaf 0\<rparr>)
           (call (GroupNorm 2 32))) (call ReLU)"
  by (simp add: eval_defs)

section \<open>The registry entry \<^verbatim>\<open>identity\<close>\<close>

text \<open>
  C10. The entry \<^verbatim>\<open>identity\<close> builds \<^verbatim>\<open>IdentityOp(c, c)\<close> with the default ops-order
  \<^verbatim>\<open>weight_norm_act\<close>: whatever the stride argument, \<^verbatim>\<open>apply\<close> is the group normalization
  followed by the ReLU. Only \<^verbatim>\<open>weight_call\<close> returns its input. On a 5-D input with
  \<open>c > 0\<close> channels and spatial extents of at least 2 the result is
  \<open>ReLU(GroupNorm(x))\<close>, of the shape of the input, and is not the input itself.
\<close>

theorem identity_entry:
  "OPS_apply ''identity'' c s x = bind (call (GroupNorm (spec_group_count c) c) x) (call ReLU)
   \<and> IdentityOp_weight_call self x = Inr x
   \<and> (0 < c \<and> shape x = [b, c, d, h, w] \<and> 2 \<le> d \<and> 2 \<le> h \<and> 2 \<le> w
        \<longrightarrow> OPS_apply ''identity'' c s x
              = Inr \<lparr>shape = shape x,
                     data = App ReLU (App (GroupNorm (spec_group_count c) c) (data x))\<rparr>
            \<and> OPS_apply ''identity'' c s x \<noteq> Inr x)"
proof -
  have eq: "OPS_apply ''identity'' c s x
      = bind (call (GroupNorm (spec_group_count c) c) x) (call ReLU)"
    by (simp add: OPS_apply_def OPS_def forward_weight_norm_act IdentityOp_init_def
        IdentityOp_weight_call_def)
  have "OPS_apply ''identity'' c s x
          = Inr \<lparr>shape = shape x,
                 data = App ReLU (App (GroupNorm (spec_group_count c) c) (data x))\<rparr>
        \<and> OPS_apply ''identity'' c s x \<noteq> Inr x"
    if "0 < c" and "shape x = [b, c, d, h, w]" and "2 \<le> d" "2 \<le> h" "2 \<le> w"
  proof -
    have val: "OPS_apply ''identity'' c s x
          = Inr \<lparr>shape = shape x,
                 data = App ReLU (App (GroupNorm (spec_group_count c) c) (data x))\<rparr>"
      using that spec_group_count_ok [of c] by (simp add: eq group_guard)
    have "App ReLU (App (GroupNorm (spec_group_count c) c) (data x)) \<noteq> data x"
      by (rule texpr_App2_neq)
    then have "\<lparr>shape = shape x,
        data = App ReLU (App (GroupNorm (spec_group_count c) c) (data x))\<rparr> \<noteq> x"
      by (metis tensor.select_convs(2))
    then show ?thesis using val by simp
  qed
  moreover have "IdentityOp_weight_call self x = Inr x"
    by (simp add: IdentityOp_weight_call_def)
  ultimately show ?thesis using eq by blast
qed

theorem identity_entry_witness:
  "0 < (16::int) \<and> shape \<lparr>shape = [1, 16, 8, 8, 8], data = Leaf 0\<rparr> = [1, 16, 8, 8, 8]
   \<and> (2::int) \<le> 8
   \<and> OPS_apply ''identity'' 16 1 \<lparr>shape = [1, 16, 8, 8, 8], data = Leaf 0\<rparr>
       = Inr \<lparr>shape = [1, 16, 8, 8, 8], data = App ReLU (App (GroupNorm 1 16) (Leaf 0))\<rparr>"
  using identity_entry [of 16 1 "\<lparr>shape = [1, 16, 8, 8, 8], data = Leaf 0\<rparr>"
      "IdentityOp_init 16 16 ''weight_norm_act''" 1 8 8 8]
  by (simp add: spec_group_count_def)

section \<open>Shapes\<close>

lemma bind_Inr_iff: "bind m f = Inr y \<longleftrightarrow> (\<exists>v. m = Inr v \<and> f v = Inr y)"
  by (cases m) simp_all

lemma SEConvOp_weight_call_same:
  assumes "0 \<le> c" and "shape x = [b, c, d, h, w]"
  shows "SEConvOp_weight_call (SEConvOp_init c c k s dl t r ord) x
    = (if s \<ge> 2
       then attr_call (SEConvOp.conv (SEConvOp_init c c k s dl t r ord))
              \<lparr>shape = [b, c, d, h, w], data = Mul (data x) (gate b c (data x))\<rparr>
       else Inr \<lparr>shape = [b, c, d, h, w], data = Mul (data x) (gate b c (data x))\<rparr>)"
  using assms by (simp add: SEConvOp_weight_call_def view_def mul_def gate_def)

lemma keeps_shape_simps [simp]:
  "keeps_shape None" "keeps_shape (Some ReLU)" "keeps_shape (Some Sigmoid)"
  "keeps_shape (Some (Dropout3d p))" "keeps_shape (Some (GroupNorm g c))"
  by (auto simp: keeps_shape_def split: list.splits if_splits)

lemma keeps_shape_base [simp]:
  "keeps_shape (norm (BaseOp_init i out r ord))"
  "keeps_shape (activation (BaseOp_init i out r ord))"
  "keeps_shape (dropout (BaseOp_init i out r ord))"
  by simp_all

lemma forward_loop_inv:
  assumes wc: "\<And>x y. I (shape x) \<Longrightarrow> wc x = Inr y \<Longrightarrow> I (shape y)"
    and "keeps_shape (norm self)" "keeps_shape (activation self)" "keeps_shape (dropout self)"
  shows "I (shape x) \<Longrightarrow> forward_loop wc self toks x = Inr y \<Longrightarrow> I (shape y)"
proof (induction toks arbitrary: x)
  case Nil
  then show ?case by simp
next
  case (Cons tok toks)
  have keep: "opt_call a x = Inr z \<Longrightarrow> keeps_shape a \<Longrightarrow> I (shape z)" for a z
    using Cons.prems(1) by (simp add: keeps_shape_def)
  from Cons.prems(2) show ?case
    using assms(2-4)
    by (auto simp: bind_Inr_iff split: if_splits dest!: keep intro: Cons.IH wc)
qed

lemma call_conv_bc5:
  "bc5 b c (shape x) \<Longrightarrow> call (Conv3d c c k s p d g) x = Inr y \<Longrightarrow> bc5 b c (shape y)"
  "bc5 b c (shape x) \<Longrightarrow> call (ConvTranspose3d c c k s p d g) x = Inr y \<Longrightarrow> bc5 b c (shape y)"
  "bc5 b c (shape x) \<Longrightarrow> call (AvgPool3d k s) x = Inr y \<Longrightarrow> bc5 b c (shape y)"
  "bc5 b c (shape x) \<Longrightarrow> call (MaxPool3d k s) x = Inr y \<Longrightarrow> bc5 b c (shape y)"
  by (auto simp: bc5_def split: if_splits)

lemma built_sameI:
  "built_same c (Inr (IdentityOp (IdentityOp_init c c ord)))"
  "built_same c (Inr (SEConvOp (SEConvOp_init c c k st d t rt ord)))"
  "built_same c (Inr (ConvOps (ConvOps_init c c k st d t dw rt ord)))"
  "built_same c (map_sum id PoolingOp (PoolingOp_init c c pt k st ord))"
  unfolding built_same_def by blast+

lemma OPS_factory_built:
  assumes "map_of OPS n = Some f"
  shows "built_same c (f c s)"
proof -
  from assms have "(n, f) \<in> set OPS" by (rule map_of_SomeD)
  then show ?thesis unfolding OPS_def by (auto simp: built_sameI)
qed

lemma OPS_factory_stride:
  assumes "map_of OPS n = Some f"
  shows "f c s1 = f c s2"
proof -
  from assms have "(n, f) \<in> set OPS" by (rule map_of_SomeD)
  then show ?thesis unfolding OPS_def by auto
qed

lemma ConvOps_weight_call_bc5:
  "bc5 b c (shape x) \<Longrightarrow> ConvOps_weight_call (ConvOps_init c c k s d t dw r ord) x = Inr y
   \<Longrightarrow> bc5 b c (shape y)"
  unfolding ConvOps_weight_call_def ConvOps_init_def Let_def attr_call_def
  by (auto simp: bind_Inr_iff simp del: call.simps split: if_splits dest: call_conv_bc5)

lemma SEConvOp_weight_call_bc5:
  assumes "bc5 b c (shape x)"
    and "SEConvOp_weight_call (SEConvOp_init c c k s d t r ord) x = Inr y"
  shows "bc5 b c (shape y)"
proof -
  from assms(1) obtain dd h w where sh: "shape x = [b, c, dd, h, w]" by (auto simp: bc5_def)
  show ?thesis
  proof (cases "0 \<le> c")
    case True
    note same = SEConvOp_weight_call_same [OF True sh]
    let ?xy = "\<lparr>shape = [b, c, dd, h, w], data = Mul (data x) (gate b c (data x))\<rparr>"
    have xy: "bc5 b c (shape ?xy)" by (simp add: bc5_def)
    show ?thesis
    proof (cases "s \<ge> 2")
      case big: True
      with assms(2) have "attr_call (SEConvOp.conv (SEConvOp_init c c k s d t r ord)) ?xy = Inr y"
        by (simp add: same)
      then show ?thesis
        using call_conv_bc5(1,2) [OF xy]
        by (auto simp: SEConvOp_init_def Let_def attr_call_def simp del: call.simps
            split: if_splits)
    next
      case small: False
      with assms(2) have "y = ?xy" by (simp add: same)
      with xy show ?thesis by simp
    qed
  next
    case False
    then have "SEConvOp_weight_call (SEConvOp_init c c k s d t r ord) x = Inl RuntimeError"
      using sh by (simp add: SEConvOp_weight_call_def view_def)
    with assms(2) show ?thesis by simp
  qed
qed

lemma apply_op_bc5:
  assumes "built_same c (Inr op)" and "bc5 b c (shape x)" and "apply_op op x = Inr y"
  shows "bc5 b c (shape y)"
proof -
  from assms(1) consider
      (Id) ord where "op = IdentityOp (IdentityOp_init c c ord)"
    | (SE) k st d t rt ord where "op = SEConvOp (SEConvOp_init c c k st d t rt ord)"
    | (Conv) k st d t dw rt ord where "op = ConvOps (ConvOps_init c c k st d t dw rt ord)"
    | (Pool) pt k st ord where "Inr op = map_sum id PoolingOp (PoolingOp_init c c pt k st ord)"
    unfolding built_same_def by auto
  then show ?thesis
  proof cases
    case Id
    with assms(3) have "forward_loop (IdentityOp_weight_call (IdentityOp_init c c ord))
        (IdentityOp_init c c ord) (ops_list (IdentityOp_init c c ord)) x = Inr y"
      by (simp add: forward_def)
    then show ?thesis
      by (rule forward_loop_inv [where I = "bc5 b c", rotated -1])
        (simp_all add: IdentityOp_weight_call_def IdentityOp_init_def assms(2))
  next
    case SE
    with assms(3) have "forward_loop (SEConvOp_weight_call (SEConvOp_init c c k st d t rt ord))
        (SEConvOp_init c c k st d t rt ord) (ops_list (SEConvOp_init c c k st d t rt ord)) x
        = Inr y"
      by (simp add: forward_def)
    then show ?thesis
      by (rule forward_loop_inv [where I = "bc5 b c", rotated -1])
        (simp_all add: assms(2) SEConvOp_weight_call_bc5)
  next
    case Conv
    with assms(3) have "forward_loop (ConvOps_weight_call (ConvOps_init c c k st d t dw rt ord))
        (ConvOps_init c c k st d t dw rt ord) (ops_list (ConvOps_init c c k st d t dw rt ord)) x
        = Inr y"
      by (simp add: forward_def)
    then show ?thesis
      by (rule forward_loop_inv [where I = "bc5 b c", rotated -1])
        (simp_all add: assms(2) ConvOps_weight_call_bc5)
  next
    case Pool
    then obtain self where op: "op = PoolingOp self"
      and self: "PoolingOp_init c c pt k st ord = Inr self"
      by (cases "PoolingOp_init c c pt k st ord") auto
    from self have base: "keeps_shape (norm self)" "keeps_shape (activation self)"
        "keeps_shape (dropout self)" and pool: "pool self = AvgPool3d k st \<or> pool self = MaxPool3d k st"
      by (auto simp: PoolingOp_init_def Let_def split: if_splits)
    have wc: "bc5 b c (shape z) \<Longrightarrow> PoolingOp_weight_call self z = Inr z'
        \<Longrightarrow> bc5 b c (shape z')" for z z'
      using pool by (auto simp: PoolingOp_weight_call_def simp del: call.simps
          dest: call_conv_bc5)
    from assms(3) op have "forward_loop (PoolingOp_weight_call self) self (ops_list self) x = Inr y"
      by (simp add: forward_def)
    then show ?thesis
      by (rule forward_loop_inv [where I = "bc5 b c", rotated -1])
        (simp_all add: assms(2) base wc)
  qed
qed


lemma pool_out_2: "pool_out e 2 2 = e div 2"
  by (simp add: pool_out_def)

lemmas registry_eval = OPS_apply_def OPS_def forward_def forward_loop_fun
  ConvOps_weight_call_def PoolingOp_weight_call_def IdentityOp_weight_call_def attr_call_def
  ConvOps_init_def PoolingOp_init_def IdentityOp_init_def Let_def
  conv_ok_def conv_out_def conv_transpose_out_def

lemma SEConvOp_weight_call_same2:
  assumes "0 \<le> c" and "shape x = [b, c, d, h, w]"
  shows "SEConvOp_weight_call (SEConvOp_init c c k s dl t r ord) x
    = (if s \<ge> 2
       then call (if t then ConvTranspose3d c c k s ((dl * (k - 1) - s + 1) div 2) 1 1
                  else Conv3d c c k s ((dl * (k - 1) - s + 1) div 2) 1 1)
              \<lparr>shape = [b, c, d, h, w], data = Mul (data x) (gate b c (data x))\<rparr>
       else Inr \<lparr>shape = [b, c, d, h, w], data = Mul (data x) (gate b c (data x))\<rparr>)"
  unfolding SEConvOp_weight_call_same [OF assms]
  by (simp add: SEConvOp_init_def Let_def attr_call_def)

lemmas se_registry_eval = OPS_apply_def OPS_def forward_def forward_loop_fun
  SEConvOp_weight_call_same2 conv_ok_def conv_out_def conv_transpose_out_def

lemma conv_out_half: "(e - 3) div 2 + 1 = (e - 1) div 2" for e :: int
  by simp

lemma conv_out_half_pos: "5 \<le> e \<Longrightarrow> 2 \<le> (e - 1) div 2" for e :: int
  by presburger

lemma conv_out_half_pos1: "5 \<le> e \<Longrightarrow> 1 \<le> (e - 1) div 2" for e :: int
  by presburger

lemma NormOps_shape:
  assumes "0 < c" and "shape x = [b, c, d, h, w]" and "2 \<le> d" "2 \<le> h" "2 \<le> w"
    and "n \<in> set NormOps"
  shows "map_sum id shape (OPS_apply n c s x) = Inr [b, c, d, h, w]"
proof -
  from assms(6) consider "n = ''identity''" | "n = ''se_conv''" | "n = ''dil_conv''"
    | "n = ''dep_conv''" | "n = ''conv''"
    by (auto simp: NormOps_def)
  then show ?thesis
  proof cases
    case 1
    then show ?thesis using assms(1-5) spec_group_count_ok [of c] by (simp add: registry_eval group_guard)
  next
    case 2
    then show ?thesis using assms(1-5) by (simp add: se_registry_eval group_guard)
  next
    case 3
    then show ?thesis using assms(1-5) spec_group_count_ok [of c] by (simp add: registry_eval group_guard)
  next
    case 4
    then show ?thesis using assms(1-5) spec_group_count_ok [of c] by (simp add: registry_eval group_guard)
  next
    case 5
    then show ?thesis using assms(1-5) spec_group_count_ok [of c] by (simp add: registry_eval group_guard)
  qed
qed

lemma pool_shape:
  assumes "shape x = [b, c, d, h, w]" and "2 \<le> d" "2 \<le> h" "2 \<le> w"
    and "n = ''avg_pool'' \<or> n = ''max_pool''"
  shows "map_sum id shape (OPS_apply n c s x) = Inr [b, c, d div 2, h div 2, w div 2]"
proof -
  from assms(5) consider "n = ''avg_pool''" | "n = ''max_pool''" by auto
  then show ?thesis
  proof cases
    case 1
    then show ?thesis using assms(1-4) by (simp add: registry_eval pool_out_2)
  next
    case 2
    then show ?thesis using assms(1-4) by (simp add: registry_eval pool_out_2)
  qed
qed

lemma down_conv_shape:
  assumes "0 < c" and "shape x = [b, c, d, h, w]" and "5 \<le> d" "5 \<le> h" "5 \<le> w"
    and "n \<in> {''down_se_conv'', ''down_dil_conv'', ''down_dep_conv'', ''down_conv''}"
  shows "map_sum id shape (OPS_apply n c s x)
           = Inr [b, c, (d - 1) div 2, (h - 1) div 2, (w - 1) div 2]"
proof -
  from assms(6) consider "n = ''down_se_conv''" | "n = ''down_dil_conv''"
    | "n = ''down_dep_conv''" | "n = ''down_conv''"
    by auto
  then show ?thesis
  proof cases
    case 1
    then show ?thesis using assms(1-5) spec_group_count_ok [of c]
      by (simp add: se_registry_eval conv_out_half conv_out_half_pos group_guard)
  next
    case 2
    then show ?thesis using assms(1-5) spec_group_count_ok [of c]
      by (simp add: registry_eval conv_out_half conv_out_half_pos group_guard)
  next
    case 3
    then show ?thesis using assms(1-5) spec_group_count_ok [of c]
      by (simp add: registry_eval conv_out_half conv_out_half_pos conv_out_half_pos1 group_guard)
  next
    case 4
    then show ?thesis using assms(1-5) spec_group_count_ok [of c]
      by (simp add: registry_eval conv_out_half conv_out_half_pos group_guard)
  qed
qed

lemma UpOps_shape:
  assumes "0 < c" and "shape x = [b, c, d, h, w]" and "1 \<le> d" "1 \<le> h" "1 \<le> w"
    and "n \<in> set UpOps"
  shows "map_sum id shape (OPS_apply n c s x) = Inr [b, c, 2 * d + 1, 2 * h + 1, 2 * w + 1]"
proof -
  from assms(6) consider "n = ''up_se_conv''" | "n = ''up_dep_conv''"
    | "n = ''up_conv''" | "n = ''up_dil_conv''"
    by (auto simp: UpOps_def)
  then show ?thesis
  proof cases
    case 1
    then show ?thesis using assms(1-5) spec_group_count_ok [of c]
      by (simp add: se_registry_eval group_guard)
  next
    case 2
    then show ?thesis using assms(1-5) spec_group_count_ok [of c]
      by (simp add: registry_eval group_guard)
  next
    case 3
    then show ?thesis using assms(1-5) spec_group_count_ok [of c]
      by (simp add: registry_eval group_guard)
  next
    case 4
    then show ?thesis using assms(1-5) spec_group_count_ok [of c]
      by (simp add: registry_eval group_guard)
  qed
qed
lemma down_up_cases:
  assumes "n \<in> set DownOps \<union> set UpOps"
  shows "(n = ''avg_pool'' \<or> n = ''max_pool'')
    \<or> n \<in> {''down_se_conv'', ''down_dil_conv'', ''down_dep_conv'', ''down_conv''}
    \<or> n \<in> set UpOps"
  using assms unfolding DownOps_def by simp

section \<open>What the registry entries do to the shape\<close>

text \<open>
  C1 (as amended). Every factory of the registry, called with a channel count \<open>c > 0\<close>
  and any stride argument, yields an operation whose \<^verbatim>\<open>apply\<close>, on a 5-D input
  \<open>[b, c, d, h, w]\<close>, returns a 5-D tensor with the same batch size and \<open>c\<close> channels:
  of the shape of the input for the entries of \<^verbatim>\<open>NormOps\<close> (spatial extents at least 2);
  with every spatial extent floor-divided by 2, whatever the stride argument, for
  \<^verbatim>\<open>avg_pool\<close> and \<^verbatim>\<open>max_pool\<close> (spatial extents at least 2); and, for every entry of
  \<^verbatim>\<open>DownOps\<close> and \<^verbatim>\<open>UpOps\<close>, with batch size \<open>b\<close> and \<open>c\<close> channels (spatial extents at
  least 5, so that the kernel fits and the normalization sees more than one value).
  Nothing is stated here about the spatial extents that the convolutional entries of
  \<^verbatim>\<open>DownOps\<close> and \<^verbatim>\<open>UpOps\<close> return.
\<close>

theorem registry_shapes:
  assumes "0 < c" and "shape x = [b, c, d, h, w]"
  shows "(n \<in> set NormOps \<and> 2 \<le> d \<and> 2 \<le> h \<and> 2 \<le> w
            \<longrightarrow> map_sum id shape (OPS_apply n c s x) = Inr [b, c, d, h, w])
    \<and> ((n = ''avg_pool'' \<or> n = ''max_pool'') \<and> 2 \<le> d \<and> 2 \<le> h \<and> 2 \<le> w
            \<longrightarrow> map_sum id shape (OPS_apply n c s x) = Inr [b, c, d div 2, h div 2, w div 2])
    \<and> (n \<in> set DownOps \<union> set UpOps \<and> 5 \<le> d \<and> 5 \<le> h \<and> 5 \<le> w
            \<longrightarrow> (\<exists>d' h' w'. map_sum id shape (OPS_apply n c s x) = Inr [b, c, d', h', w']))"
proof -
  have norm_ops: "map_sum id shape (OPS_apply n c s x) = Inr [b, c, d, h, w]"
    if "n \<in> set NormOps" "2 \<le> d" "2 \<le> h" "2 \<le> w"
    using assms that(2-4) that(1) by (rule NormOps_shape)
  have pools: "map_sum id shape (OPS_apply n c s x) = Inr [b, c, d div 2, h div 2, w div 2]"
    if "n = ''avg_pool'' \<or> n = ''max_pool''" "2 \<le> d" "2 \<le> h" "2 \<le> w"
    using assms(2) that(2-4) that(1) by (rule pool_shape)
  have rest: "\<exists>d' h' w'. map_sum id shape (OPS_apply n c s x) = Inr [b, c, d', h', w']"
    if n: "n \<in> set DownOps \<union> set UpOps" and big: "5 \<le> d" "5 \<le> h" "5 \<le> w"
  proof -
    from down_up_cases [OF n] show ?thesis
    proof (elim disjE)
      assume "n = ''avg_pool''"
      then have "map_sum id shape (OPS_apply n c s x) = Inr [b, c, d div 2, h div 2, w div 2]"
        using big by (intro pools) simp_all
      then show ?thesis by (intro exI)
    next
      assume "n = ''max_pool''"
      then have "map_sum id shape (OPS_apply n c s x) = Inr [b, c, d div 2, h div 2, w div 2]"
        using big by (intro pools) simp_all
      then show ?thesis by (intro exI)
    next
      assume "n \<in> {''down_se_conv'', ''down_dil_conv'', ''down_dep_conv'', ''down_conv''}"
      then have "map_sum id shape (OPS_apply n c s x)
          = Inr [b, c, (d - 1) div 2, (h - 1) div 2, (w - 1) div 2]"
        by (rule down_conv_shape [OF assms big])
      then show ?thesis by (intro exI)
    next
      assume up: "n \<in> set UpOps"
      from big have "1 \<le> d" "1 \<le> h" "1 \<le> w" by simp_all
      with assms have "map_sum id shape (OPS_apply n c s x)
          = Inr [b, c, 2 * d + 1, 2 * h + 1, 2 * w + 1]"
        using up by (rule UpOps_shape)
      then show ?thesis by (intro exI)
    qed
  qed
  show ?thesis
  proof (intro conjI impI)
    assume "n \<in> set NormOps \<and> 2 \<le> d \<and> 2 \<le> h \<and> 2 \<le> w"
    then show "map_sum id shape (OPS_apply n c s x) = Inr [b, c, d, h, w]"
      using norm_ops by simp
  next
    assume "(n = ''avg_pool'' \<or> n = ''max_pool'') \<and> 2 \<le> d \<and> 2 \<le> h \<and> 2 \<le> w"
    then show "map_sum id shape (OPS_apply n c s x) = Inr [b, c, d div 2, h div 2, w div 2]"
      using pools by simp
  next
    assume "n \<in> set DownOps \<union> set UpOps \<and> 5 \<le> d \<and> 5 \<le> h \<and> 5 \<le> w"
    then show "\<exists>d' h' w'. map_sum id shape (OPS_apply n c s x) = Inr [b, c, d', h', w']"
      using rest by simp
  qed
qed


theorem registry_shapes_witness:
  "(0::int) < 16 \<and> shape \<lparr>shape = [1, 16, 8, 8, 8], data = Leaf 0\<rparr> = [1, 16, 8, 8, 8]
   \<and> ''conv'' \<in> set NormOps
   \<and> map_sum id shape (OPS_apply ''conv'' 16 1 \<lparr>shape = [1, 16, 8, 8, 8], data = Leaf 0\<rparr>)
       = Inr [1, 16, 8, 8, 8]
   \<and> map_sum id shape (OPS_apply ''avg_pool'' 16 4 \<lparr>shape = [1, 16, 8, 8, 8], data = Leaf 0\<rparr>)
       = Inr [1, 16, 4, 4, 4]
   \<and> ''up_conv'' \<in> set DownOps \<union> set UpOps
   \<and> (\<exists>d' h' w'. map_sum id shape
          (OPS_apply ''up_conv'' 16 2 \<lparr>shape = [1, 16, 8, 8, 8], data = Leaf 0\<rparr>)
       = Inr [1, 16, d', h', w'])"
  using registry_shapes [of 16 "\<lparr>shape = [1, 16, 8, 8, 8], data = Leaf 0\<rparr>" 1 8 8 8 "''conv''" 1]
    registry_shapes [of 16 "\<lparr>shape = [1, 16, 8, 8, 8], data = Leaf 0\<rparr>" 1 8 8 8 "''avg_pool''" 4]
    registry_shapes [of 16 "\<lparr>shape = [1, 16, 8, 8, 8], data = Leaf 0\<rparr>" 1 8 8 8 "''up_conv''" 2]
  by (simp add: NormOps_def DownOps_def UpOps_def)


text \<open>
  C1 as stated fails. The stride argument is not used: \<^verbatim>\<open>avg_pool\<close> called with stride 4
  halves the extent 8 to 4, where dividing by the stride gives 2. And with stride 2, the
  registry's own stride, \<^verbatim>\<open>down_conv\<close> returns extent 3 for 8, not 4, and \<^verbatim>\<open>up_conv\<close>
  returns 17, not 16.
\<close>

theorem registry_shapes_counterexample:
  "map_sum id shape (OPS_apply ''avg_pool'' 16 4 \<lparr>shape = [1, 16, 8, 8, 8], data = Leaf 0\<rparr>)
       = Inr [1, 16, 4, 4, 4]
   \<and> spec_extent ''avg_pool'' 4 8 = 2
   \<and> map_sum id shape (OPS_apply ''down_conv'' 16 2 \<lparr>shape = [1, 16, 8, 8, 8], data = Leaf 0\<rparr>)
       = Inr [1, 16, 3, 3, 3]
   \<and> spec_extent ''down_conv'' 2 8 = 4
   \<and> map_sum id shape (OPS_apply ''up_conv'' 16 2 \<lparr>shape = [1, 16, 8, 8, 8], data = Leaf 0\<rparr>)
       = Inr [1, 16, 17, 17, 17]
   \<and> spec_extent ''up_conv'' 2 8 = 16"
  by (simp add: eval_defs spec_group_count_def spec_extent_def DownOps_def UpOps_def)

section \<open>\<^verbatim>\<open>SEConvOp\<close> with a stride below 2\<close>

lemma forward_loop_total:
  assumes wc: "\<And>x. shape x = sh \<Longrightarrow> \<exists>y. wc x = Inr y \<and> shape y = sh"
    and n: "norm self = None"
    and a: "activation self = None \<or> activation self = Some ReLU"
    and dr: "dropout self = None \<or> (\<exists>p. dropout self = Some (Dropout3d p))"
  shows "list_all recognized toks \<Longrightarrow> shape x = sh
         \<Longrightarrow> \<exists>y. forward_loop wc self toks x = Inr y \<and> shape y = sh"
proof (induction toks arbitrary: x)
  case Nil
  then show ?case by simp
next
  case (Cons tok toks)
  from Cons.prems(1) have rest: "list_all recognized toks" and tok: "recognized tok"
    by simp_all
  have drop: "\<exists>y. opt_call (dropout self) x = Inr y \<and> shape y = sh"
    using dr Cons.prems(2) by auto
  have act: "\<exists>y. opt_call (activation self) x = Inr y \<and> shape y = sh"
    using a Cons.prems(2) by auto
  from tok consider "tok = ''weight''" | "tok = ''norm''" | "tok = ''act''"
    by (auto simp: recognized_def)
  then show ?case
  proof cases
    case 1
    from drop obtain x1 where x1: "opt_call (dropout self) x = Inr x1" "shape x1 = sh" by blast
    from wc [OF x1(2)] obtain x2 where x2: "wc x1 = Inr x2" "shape x2 = sh" by blast
    from Cons.IH [OF rest x2(2)] show ?thesis using 1 x1 x2 by simp
  next
    case 2
    from Cons.IH [OF rest Cons.prems(2)] show ?thesis using 2 n by simp
  next
    case 3
    from act obtain x1 where x1: "opt_call (activation self) x = Inr x1" "shape x1 = sh"
      by blast
    from Cons.IH [OF rest x1(2)] show ?thesis using 3 x1 by simp
  qed
qed

lemma SEConvOp_small_stride_shape:
  assumes "s < 2"
  shows "norm (SEConvOp_init i out k s dl t r ord) = None
    \<and> (0 \<le> c \<and> list_all recognized (str_split CHR ''_'' ord) \<and> shape x = [b, c, d, h, w]
         \<longrightarrow> (\<exists>y. apply_op (SEConvOp (SEConvOp_init c c k s dl t r ord)) x = Inr y
                  \<and> shape y = shape x))"
proof -
  have none: "norm (SEConvOp_init i out k s dl t r ord) = None"
    using assms by simp
  have "\<exists>y. apply_op (SEConvOp (SEConvOp_init c c k s dl t r ord)) x = Inr y \<and> shape y = shape x"
    if c: "0 \<le> c" and toks: "list_all recognized (str_split CHR ''_'' ord)"
      and sh: "shape x = [b, c, d, h, w]"
  proof -
    let ?self = "SEConvOp_init c c k s dl t r ord"
    have wc: "\<exists>y. SEConvOp_weight_call ?self z = Inr y \<and> shape y = [b, c, d, h, w]"
      if "shape z = [b, c, d, h, w]" for z
      using assms by (simp add: SEConvOp_weight_call_same2 [OF c that])
    have "\<exists>y. forward_loop (SEConvOp_weight_call ?self) ?self (str_split CHR ''_'' ord) x = Inr y
        \<and> shape y = [b, c, d, h, w]"
      using wc _ _ _ toks sh by (rule forward_loop_total) (use assms in auto)
    then show ?thesis by (simp add: forward_def sh)
  qed
  with none show ?thesis by blast
qed

lemma SEConvOp_weight_call_mismatch:
  assumes "0 < i" and "0 < out" and "i \<noteq> out" and "b \<noteq> 0" and "shape x = [b, i, d, h, w]"
  shows "SEConvOp_weight_call (SEConvOp_init i out k s dl t r ord) x = Inl RuntimeError"
  using assms by (simp add: SEConvOp_weight_call_def view_def)

text \<open>
  C3. An \<^verbatim>\<open>SEConvOp\<close> constructed with a stride below 2 has no normalization, whatever its
  ops-order, and with \<open>in_channels = out_channels\<close> its \<^verbatim>\<open>apply\<close> returns a tensor of the
  shape of its 5-D input (\<open>SEConvOp_small_stride_shape\<close>). But the constructor takes the
  two channel counts apart, and when they differ \<^verbatim>\<open>apply\<close> returns no tensor at all: on a
  5-D input with \<open>in_channels\<close> channels and a non-empty batch, the weight stage raises at
  the view of the gate, which has \<open>out_channels\<close> values for each sample. The theorem
  states this for the default ops-order \<^verbatim>\<open>weight_norm\<close>, with or without dropout.
\<close>

theorem SEConvOp_stride1_mismatch:
  assumes "s < 2" and "0 < i" and "0 < out" and "i \<noteq> out" and "b \<noteq> 0"
    and "shape x = [b, i, d, h, w]"
  shows "norm (SEConvOp_init i out k s dl t r ''weight_norm'') = None
    \<and> apply_op (SEConvOp (SEConvOp_init i out k s dl t r ''weight_norm'')) x
        = Inl RuntimeError"
proof -
  let ?self = "SEConvOp_init i out k s dl t r ''weight_norm''"
  have none: "norm ?self = None" using assms(1) by simp
  have wc: "SEConvOp_weight_call ?self z = Inl RuntimeError" if "shape z = [b, i, d, h, w]" for z
    using assms(2-5) that by (rule SEConvOp_weight_call_mismatch)
  have "apply_op (SEConvOp ?self) x = Inl RuntimeError"
  proof (cases "r > 0")
    case True
    have "shape \<lparr>shape = shape x, data = App (Dropout3d r) (data x)\<rparr> = [b, i, d, h, w]"
      using assms(6) by simp
    from wc [OF this] show ?thesis using True by (simp add: forward_def)
  next
    case False
    from wc [OF assms(6)] show ?thesis using False by (simp add: forward_def)
  qed
  with none show ?thesis by simp
qed

theorem SEConvOp_stride1_mismatch_witness:
  "(1::int) < 2 \<and> (0::int) < 2 \<and> (0::int) < 4 \<and> (2::int) \<noteq> 4 \<and> (1::int) \<noteq> 0
   \<and> norm (SEConvOp_init 2 4 3 1 1 False 0 ''weight_norm'') = None
   \<and> apply_op (SEConvOp (SEConvOp_init 2 4 3 1 1 False 0 ''weight_norm''))
        \<lparr>shape = [1, 2, 4, 4, 4], data = Leaf 0\<rparr> = Inl RuntimeError"
  using SEConvOp_stride1_mismatch [where s = 1 and i = 2 and out = 4 and b = 1
      and x = "\<lparr>shape = [1, 2, 4, 4, 4], data = Leaf 0\<rparr>" and d = 4 and h = 4 and w = 4
      and k = 3 and dl = 1 and t = False and r = 0]
  by simp

section \<open>The gate of an \<^verbatim>\<open>SEConvOp\<close>\<close>

text \<open>
  C7. \<^verbatim>\<open>weight_call\<close> computes the gate by average pooling to one value per channel,
  then linear, ReLU, linear and sigmoid with one hidden unit (\<open>SEConvOp_weight_call_same2\<close>
  gives the term, for \<open>in_channels = out_channels\<close>). But the second linear layer has
  \<open>out_channels\<close> outputs, and the result is viewed as one value for each of the
  \<open>in_channels\<close> channels of the input. When the two differ, on a non-empty batch, the
  gate has \<open>out_channels\<close> values for each sample, the view raises, and the input is
  never multiplied by the gate.
\<close>

theorem SEConvOp_gate_mismatch:
  assumes "0 < i" and "0 < out" and "i \<noteq> out" and "b \<noteq> 0" and "shape x = [b, i, d, h, w]"
    and "1 \<le> d" "1 \<le> h" "1 \<le> w"
  shows "bind (bind (call (avg_pool (SEConvOp_init i out k s dl t r ord)) x) (view [b, i]))
           (call (fc (SEConvOp_init i out k s dl t r ord)))
          = Inr \<lparr>shape = [b, out],
                 data = App Sigmoid (App (Linear 1 out) (App ReLU (App (Linear i 1)
                          (View [b, i] (App (AdaptiveAvgPool3d 1) (data x))))))\<rparr>
    \<and> SEConvOp_weight_call (SEConvOp_init i out k s dl t r ord) x = Inl RuntimeError"
  using assms by (simp add: SEConvOp_weight_call_def view_def)

theorem SEConvOp_gate_mismatch_witness:
  "(0::int) < 2 \<and> (0::int) < 4 \<and> (2::int) \<noteq> 4 \<and> (1::int) \<noteq> 0
   \<and> SEConvOp_weight_call (SEConvOp_init 2 4 3 1 1 False 0 ''weight_norm'')
        \<lparr>shape = [1, 2, 4, 4, 4], data = Leaf 0\<rparr> = Inl RuntimeError"
  using SEConvOp_gate_mismatch [of 2 4 1 "\<lparr>shape = [1, 2, 4, 4, 4], data = Leaf 0\<rparr>"
      4 4 4 3 1 1 False 0 "''weight_norm''"]
  by simp

section \<open>The factories ignore the stride\<close>

lemma OPS_apply_lookup:
  "map_of OPS n = Some f \<Longrightarrow> OPS_apply n c s x = bind (f c s) (\<lambda>op. apply_op op x)"
  by (simp add: OPS_apply_def)

text \<open>
  C9. For every entry \<open>(n, f)\<close> of the registry, every channel count and any two strides,
  the factory returns the same operation, constructed with \<open>out_channels\<close> equal to
  \<open>in_channels\<close>; \<^verbatim>\<open>apply\<close> gives the same result for both strides, and whenever it
  returns a tensor for a 5-D input with \<open>c\<close> channels, the tensor is 5-D with the same
  batch size and \<open>c\<close> channels.
\<close>

theorem registry_ignores_stride:
  assumes "map_of OPS n = Some f"
  shows "f c s = f c s'
    \<and> built_same c (f c s)
    \<and> OPS_apply n c s x = OPS_apply n c s' x
    \<and> (shape x = [b, c, d, h, w] \<and> OPS_apply n c s x = Inr y
         \<longrightarrow> (\<exists>d' h' w'. shape y = [b, c, d', h', w']))"
proof -
  have same: "f c s = f c s'" using assms by (rule OPS_factory_stride)
  have built: "built_same c (f c s)" using assms by (rule OPS_factory_built)
  have app: "OPS_apply n c s x = OPS_apply n c s' x"
    using assms same by (simp add: OPS_apply_lookup)
  have "\<exists>d' h' w'. shape y = [b, c, d', h', w']"
    if sh: "shape x = [b, c, d, h, w]" and res: "OPS_apply n c s x = Inr y"
  proof -
    from res assms obtain op where op: "f c s = Inr op" and y: "apply_op op x = Inr y"
      by (auto simp: OPS_apply_lookup bind_Inr_iff)
    have "bc5 b c (shape x)" using sh by (simp add: bc5_def)
    with built op y have "bc5 b c (shape y)" by (metis apply_op_bc5)
    then show ?thesis by (simp add: bc5_def)
  qed
  with same built app show ?thesis by blast
qed

theorem registry_ignores_stride_witness:
  "map_of OPS ''down_conv''
     = Some (\<lambda>c stride. Inr (ConvOps (ConvOps_init c c 3 2 1 False False 0 ''weight_norm_act'')))
   \<and> OPS_apply ''down_conv'' 16 1 \<lparr>shape = [1, 16, 8, 8, 8], data = Leaf 0\<rparr>
       = OPS_apply ''down_conv'' 16 2 \<lparr>shape = [1, 16, 8, 8, 8], data = Leaf 0\<rparr>
   \<and> map_sum id shape (OPS_apply ''down_conv'' 16 1 \<lparr>shape = [1, 16, 8, 8, 8], data = Leaf 0\<rparr>)
       = Inr [1, 16, 3, 3, 3]"
proof -
  have look: "map_of OPS ''down_conv''
     = Some (\<lambda>c stride. Inr (ConvOps (ConvOps_init c c 3 2 1 False False 0 ''weight_norm_act'')))"
    by (simp add: OPS_def)
  have val: "map_sum id shape (OPS_apply ''down_conv'' 16 1 \<lparr>shape = [1, 16, 8, 8, 8], data = Leaf 0\<rparr>)
       = Inr [1, 16, 3, 3, 3]"
    by (simp add: eval_defs spec_group_count_def)
  from registry_ignores_stride [OF look, where c = 16 and s = 1 and s' = 2
      and x = "\<lparr>shape = [1, 16, 8, 8, 8], data = Leaf 0\<rparr>"]
  show ?thesis using look val by blast
qed

end
